theory Spec2Isabelle
  imports Main
begin

section \<open>The characters page: data model\<close>

text \<open>
  The development embeds \<^verbatim>\<open>src/app/pages/characters/characters.component.ts\<close>.
  The component is an event-driven program: the user types in the search box, the
  pagination widget changes the page, time passes, HTTP calls resolve, and the component
  is destroyed. Each of these is an event; the component with the bookkeeping of its one
  subscription is a record, and \<open>step\<close> is what the code does on one event.
\<close>

record Character =
  char_id :: int
  char_name :: string
  char_status :: string
  species :: string
  gender :: string

record Info =
  count :: int
  pages :: int
  next_url :: "string option"
  prev_url :: "string option"

record ApiResponse =
  info :: Info
  results :: "Character list"

datatype CharacterState = LOADING | LOADED | NO_DATA_FOUND | ERROR

text \<open>
  The error object of a failed HTTP call. The code reads its \<open>status\<close> only; a
  transport failure has status 0. The object has no \<open>results\<close> and no \<open>info\<close>
  property.
\<close>

datatype HttpErrorResponse = HttpErrorResponse (status: nat)

text \<open>What \<^verbatim>\<open>http.get\<close> resolves with.\<close>

datatype outcome = Success ApiResponse | Failure HttpErrorResponse

text \<open>
  What the observable returned by \<open>fetchCharacters\<close> sends to its subscriber. The
  stream is typed \<^verbatim>\<open>Observable<ApiResponse>\<close>, but \<^verbatim>\<open>of(err)\<close> puts the error object
  itself on the value channel, so a value is a response body or an error object.
\<close>

datatype emitted = Body ApiResponse | ErrObject HttpErrorResponse

datatype notification = NextN emitted | ErrorN HttpErrorResponse

subsection \<open>Request parameters\<close>

type_synonym HttpParams = "(string \<times> string) list"

text \<open>\<^verbatim>\<open>HttpParams.set\<close>: the key gets the value, replacing an earlier one.\<close>

definition set_param :: "string \<Rightarrow> string \<Rightarrow> HttpParams \<Rightarrow> HttpParams" where
  "set_param k v ps = filter (\<lambda>kv. fst kv \<noteq> k) ps @ [(k, v)]"

text \<open>
  \<^verbatim>\<open>page.toString()\<close> on a page number: the decimal digits, most significant first.
  Page numbers are the non-negative integers the pagination widget produces.
\<close>

definition digit :: "nat \<Rightarrow> char" where
  "digit d = ''0123456789'' ! d"

fun toString :: "nat \<Rightarrow> string" where
  "toString n = (if n < 10 then [digit n] else toString (n div 10) @ [digit (n mod 10)])"

declare toString.simps [simp del]

subsection \<open>The component\<close>

text \<open>
  The first five fields are the fields of the class: the two form controls and the three
  signals. A signal of type \<^verbatim>\<open>Character[]\<close> can hold \<^verbatim>\<open>undefined\<close> at run time, which is
  \<open>None\<close> here.

  The other fields are the state of the subscription made in \<open>ngOnInit\<close>:
  \<^item> \<open>subscribed\<close>: the subscription to \<^verbatim>\<open>loadData$\<close> is open;
  \<^item> \<open>startPage\<close>: the argument of \<^verbatim>\<open>startWith\<close> in \<^verbatim>\<open>pageChange$\<close>, evaluated once, when
    the pipe is built;
  \<^item> \<open>debounce\<close>: the value \<^verbatim>\<open>debounceTime(200)\<close> holds back, with the time it arrived;
  \<^item> \<open>distinctPrev\<close>: the last value \<^verbatim>\<open>distinctUntilChanged\<close> let through;
  \<^item> \<open>inflight\<close>: the HTTP call the inner \<^verbatim>\<open>switchMap\<close> is subscribed to, as its index in
    \<open>requests\<close>;
  \<^item> \<open>requests\<close>: the calls of \<^verbatim>\<open>http.get\<close> made so far, oldest first;
  \<^item> \<open>now\<close>: the clock, in milliseconds.
\<close>

record CharactersComponent =
  searchControl :: string
  pageControl :: nat
  totalItems :: int
  characters :: "Character list option"
  state :: CharacterState
  subscribed :: bool
  startPage :: nat
  debounce :: "(string \<times> nat) option"
  distinctPrev :: "string option"
  inflight :: "nat option"
  requests :: "HttpParams list"
  now :: nat

text \<open>The component as its field initialisers leave it, before \<open>ngOnInit\<close>.\<close>

definition constructed :: CharactersComponent where
  "constructed =
     \<lparr> searchControl = [], pageControl = 1, totalItems = 0, characters = Some [],
       state = LOADING, subscribed = False, startPage = 0, debounce = None,
       distinctPrev = None, inflight = None, requests = [], now = 0 \<rparr>"

datatype event =
    SearchInput string
  | PageInput nat
  | Elapse nat
  | Response nat outcome
  | Destroy

section \<open>The pipeline\<close>

text \<open>
  The function given to the inner \<^verbatim>\<open>switchMap\<close>: the state becomes LOADING, the list is
  emptied, the parameters are built and the call is made. \<^verbatim>\<open>switchMap\<close> drops the call
  it was subscribed to before, so the new call is the one in flight.
\<close>

definition loadPage :: "nat \<Rightarrow> CharactersComponent \<Rightarrow> CharactersComponent" where
  "loadPage page c =
     c\<lparr> state := LOADING,
        characters := Some [],
        inflight := Some (length (requests c)),
        requests := requests c @
          [set_param ''name'' (searchControl c) (set_param ''page'' (toString page) [])] \<rparr>"

text \<open>
  The function given to the outer \<^verbatim>\<open>switchMap\<close> subscribes to \<^verbatim>\<open>pageChange$\<close>, which
  starts with the value captured when the pipe was built.
\<close>

definition subscribePageChange :: "CharactersComponent \<Rightarrow> CharactersComponent" where
  "subscribePageChange c = loadPage (startPage c) c"

text \<open>The \<^verbatim>\<open>tap\<close>: \<^verbatim>\<open>setValue(1, { emitEvent: false })\<close> writes the page and emits nothing.\<close>

definition resetPage :: "CharactersComponent \<Rightarrow> CharactersComponent" where
  "resetPage c = (if pageControl c \<noteq> 1 then c\<lparr> pageControl := 1 \<rparr> else c)"

text \<open>
  A value leaving \<^verbatim>\<open>debounceTime\<close>: \<^verbatim>\<open>distinctUntilChanged\<close> drops it when it equals the
  value it let through last; otherwise the \<^verbatim>\<open>tap\<close> runs and the outer \<^verbatim>\<open>switchMap\<close>
  subscribes anew.
\<close>

definition searchEmit :: "string \<Rightarrow> CharactersComponent \<Rightarrow> CharactersComponent" where
  "searchEmit v c =
     (if distinctPrev c = Some v then c
      else subscribePageChange (resetPage (c\<lparr> distinctPrev := Some v \<rparr>)))"

text \<open>
  \<open>ngOnInit\<close> builds the pipes and subscribes. The \<^verbatim>\<open>startWith\<close> of \<^verbatim>\<open>searchChange$\<close> sits
  after the debounce, the comparison and the \<^verbatim>\<open>tap\<close>, so its value goes straight to the
  outer \<^verbatim>\<open>switchMap\<close>.
\<close>

definition ngOnInit :: "CharactersComponent \<Rightarrow> CharactersComponent" where
  "ngOnInit c =
     subscribePageChange
       (c\<lparr> subscribed := True, startPage := pageControl c, debounce := None,
           distinctPrev := None \<rparr>)"

text \<open>
  \<open>fetchCharacters\<close>: the \<^verbatim>\<open>catchError\<close> throws a 404 on and turns every other error
  into a value.
\<close>

definition fetchCharacters :: "outcome \<Rightarrow> notification" where
  "fetchCharacters out =
     (case out of
        Success r \<Rightarrow> NextN (Body r)
      | Failure err \<Rightarrow> if status err = 404 then ErrorN err else NextN (ErrObject err))"

text \<open>
  The \<open>next\<close> callback. On an error object \<^verbatim>\<open>response.results\<close> is \<^verbatim>\<open>undefined\<close>, and
  reading \<^verbatim>\<open>response.info.count\<close> throws a TypeError, which ends the callback there:
  \<open>totalItems\<close> and \<open>state\<close> are not written. RxJS reports an exception of a \<open>next\<close>
  callback and keeps the subscription open.
\<close>

definition onNext :: "emitted \<Rightarrow> CharactersComponent \<Rightarrow> CharactersComponent" where
  "onNext v c =
     (case v of
        Body response \<Rightarrow>
          c\<lparr> characters := Some (results response),
             totalItems := count (info response),
             state := LOADED \<rparr>
      | ErrObject err \<Rightarrow> c\<lparr> characters := None \<rparr>)"

text \<open>The \<open>error\<close> callback.\<close>

definition onError :: "HttpErrorResponse \<Rightarrow> CharactersComponent \<Rightarrow> CharactersComponent" where
  "onError err c =
     c\<lparr> characters := Some [],
        totalItems := 0,
        state := (if status err = 404 then NO_DATA_FOUND else ERROR) \<rparr>"

text \<open>
  The end of the subscription, by an error or by \<open>ngOnDestroy\<close>: the timer of the
  debounce and the call in flight go with it.
\<close>

definition teardown :: "CharactersComponent \<Rightarrow> CharactersComponent" where
  "teardown c = c\<lparr> subscribed := False, debounce := None, inflight := None \<rparr>"

definition deliver :: "notification \<Rightarrow> CharactersComponent \<Rightarrow> CharactersComponent" where
  "deliver n c =
     (case n of
        NextN v \<Rightarrow> onNext v (c\<lparr> inflight := None \<rparr>)
      | ErrorN err \<Rightarrow> teardown (onError err c))"

text \<open>
  \<open>due c n\<close> is the value the debounce lets go when \<open>n\<close> more milliseconds pass: the
  value it holds, once 200 ms have passed since that value arrived.
\<close>

definition due :: "CharactersComponent \<Rightarrow> nat \<Rightarrow> string option" where
  "due c n =
     (case debounce c of
        None \<Rightarrow> None
      | Some vt \<Rightarrow> if snd vt + 200 \<le> now c + n then Some (fst vt) else None)"

text \<open>
  One event.
  \<^item> A keystroke writes the search control; an open subscription hands the value to the
    debounce, which forgets the value it held.
  \<^item> A page change by the widget writes the page control; an open subscription is
    subscribed to its \<^verbatim>\<open>valueChanges\<close> and loads the page.
  \<^item> Time passes; the debounce may let its value go.
  \<^item> An HTTP call resolves. Only the call in flight has a subscriber.
  \<^item> \<open>ngOnDestroy\<close>.
\<close>

definition step :: "CharactersComponent \<Rightarrow> event \<Rightarrow> CharactersComponent" where
  "step c e =
     (case e of
        SearchInput v \<Rightarrow>
          if subscribed c then c\<lparr> searchControl := v, debounce := Some (v, now c) \<rparr>
          else c\<lparr> searchControl := v \<rparr>
      | PageInput p \<Rightarrow>
          if subscribed c then loadPage p (c\<lparr> pageControl := p \<rparr>)
          else c\<lparr> pageControl := p \<rparr>
      | Elapse n \<Rightarrow>
          (case due c n of
             None \<Rightarrow> c\<lparr> now := now c + n \<rparr>
           | Some v \<Rightarrow> (searchEmit v (c\<lparr> debounce := None \<rparr>))\<lparr> now := now c + n \<rparr>)
      | Response i out \<Rightarrow>
          if subscribed c \<and> inflight c = Some i then deliver (fetchCharacters out) c else c
      | Destroy \<Rightarrow> teardown c)"

fun run :: "CharactersComponent \<Rightarrow> event list \<Rightarrow> CharactersComponent" where
  "run c [] = c"
| "run c (e # es) = run (step c e) es"

text \<open>The component after \<open>ngOnInit\<close>, where every run of the page starts.\<close>

definition started :: CharactersComponent where
  "started = ngOnInit constructed"

section \<open>Traces and invariants\<close>

text \<open>No keystroke in a stretch of events, and the time that passes in it.\<close>

fun quiet :: "event list \<Rightarrow> bool" where
  "quiet [] = True"
| "quiet (e # es) = ((case e of SearchInput v \<Rightarrow> False | _ \<Rightarrow> True) \<and> quiet es)"

fun elapsed :: "event list \<Rightarrow> nat" where
  "elapsed [] = 0"
| "elapsed (e # es) = (case e of Elapse n \<Rightarrow> n | _ \<Rightarrow> 0) + elapsed es"

text \<open>
  What holds of every component a run reaches: the captured start page is 1, and the call
  in flight is the last one made.
\<close>

definition consistent :: "CharactersComponent \<Rightarrow> bool" where
  "consistent c \<longleftrightarrow>
     startPage c = 1 \<and> (\<forall>j. inflight c = Some j \<longrightarrow> Suc j = length (requests c))"

text \<open>
  The value the debounce holds after the events \<open>es\<close> is the value of the last keystroke
  of \<open>es\<close>, and the clock has moved on from its arrival by the time that passed since.
\<close>

definition held :: "CharactersComponent \<Rightarrow> event list \<Rightarrow> bool" where
  "held c es \<longleftrightarrow>
     (\<forall>v t. debounce c = Some (v, t) \<longrightarrow>
        subscribed c \<and>
        (\<exists>pre mid. es = pre @ SearchInput v # mid \<and> quiet mid \<and> now c = t + elapsed mid))"

definition stopped :: "CharactersComponent \<Rightarrow> bool" where
  "stopped c \<longleftrightarrow> \<not> subscribed c \<and> debounce c = None"

text \<open>Reading a decimal numeral, to say what \<open>toString\<close> writes.\<close>

definition digitValue :: "char \<Rightarrow> nat" where
  "digitValue ch = of_char ch - 48"

definition parseDecimal :: "string \<Rightarrow> nat" where
  "parseDecimal s = foldl (\<lambda>a ch. 10 * a + digitValue ch) 0 s"

text \<open>A first page of the API with no records listed: 826 characters on 42 pages.\<close>

definition firstPage :: ApiResponse where
  "firstPage =
     \<lparr> info = \<lparr> count = 826, pages = 42, next_url = None, prev_url = None \<rparr>, results = [] \<rparr>"

section \<open>Basic facts\<close>

lemma toString_Suc_0: "toString (Suc 0) = ''1''"
  by (simp add: toString.simps digit_def)

lemma digitValue_digit: "d < 10 \<Longrightarrow> digitValue (digit d) = d"
proof -
  assume "d < 10"
  then consider "d = 0" | "d = 1" | "d = 2" | "d = 3" | "d = 4" | "d = 5" | "d = 6" | "d = 7"
    | "d = 8" | "d = 9"
    by atomize_elim arith
  then show ?thesis
    by cases (simp_all add: digit_def digitValue_def)
qed

text \<open>\<open>toString\<close> writes the decimal numeral of its argument.\<close>

lemma parseDecimal_toString: "parseDecimal (toString n) = n"
proof (induction n rule: toString.induct)
  case (1 n)
  show ?case
  proof (cases "n < 10")
    case True
    then show ?thesis
      by (subst toString.simps) (simp add: parseDecimal_def digitValue_digit)
  next
    case False
    with "1" have "parseDecimal (toString (n div 10)) = n div 10" by simp
    with False show ?thesis
      by (subst toString.simps) (simp add: parseDecimal_def digitValue_digit)
  qed
qed

lemma params_shape:
  "set_param ''name'' s (set_param ''page'' p []) = [(''page'', p), (''name'', s)]"
  by (simp add: set_param_def)

lemma started_eq:
  "started =
     \<lparr> searchControl = [], pageControl = 1, totalItems = 0, characters = Some [],
       state = LOADING, subscribed = True, startPage = 1, debounce = None,
       distinctPrev = None, inflight = Some 0,
       requests = [[(''page'', ''1''), (''name'', [])]], now = 0 \<rparr>"
  by (simp add: started_def ngOnInit_def constructed_def subscribePageChange_def loadPage_def
      params_shape toString_Suc_0)

lemmas pipeline_defs =
  loadPage_def searchEmit_def subscribePageChange_def resetPage_def deliver_def
  fetchCharacters_def onNext_def onError_def teardown_def due_def

lemmas eval_defs = started_eq step_def pipeline_defs params_shape toString.simps digit_def

lemma run_snoc: "run c (es @ [e]) = step (run c es) e"
  by (induction es arbitrary: c) simp_all

lemma quiet_snoc:
  "quiet (es @ [e]) = (quiet es \<and> (case e of SearchInput v \<Rightarrow> False | _ \<Rightarrow> True))"
  by (induction es) auto

lemma elapsed_snoc: "elapsed (es @ [e]) = elapsed es + (case e of Elapse n \<Rightarrow> n | _ \<Rightarrow> 0)"
  by (induction es) auto

subsection \<open>Every reachable component is consistent\<close>

lemma consistent_started: "consistent started"
  by (simp add: started_eq consistent_def)

lemma consistent_step: "consistent c \<Longrightarrow> consistent (step c e)"
  by (cases e)
     (auto simp: consistent_def step_def pipeline_defs
        split: option.splits outcome.splits emitted.splits)

lemma consistent_run: "consistent c \<Longrightarrow> consistent (run c es)"
  by (induction es arbitrary: c) (simp_all add: consistent_step)

lemma consistent_reachable: "consistent (run started es)"
  by (rule consistent_run) (rule consistent_started)

subsection \<open>The state ERROR is never reached\<close>

lemma state_step_not_ERROR: "state c \<noteq> ERROR \<Longrightarrow> state (step c e) \<noteq> ERROR"
  by (cases e)
     (auto simp: step_def pipeline_defs split: option.splits outcome.splits emitted.splits)

lemma state_run_not_ERROR: "state c \<noteq> ERROR \<Longrightarrow> state (run c es) \<noteq> ERROR"
  by (induction es arbitrary: c) (simp_all add: state_step_not_ERROR)

lemma ERROR_unreachable: "state (run started es) \<noteq> ERROR"
  by (rule state_run_not_ERROR) (simp add: started_eq)

text \<open>What a failure other than a 404 does to any component waiting for that call.\<close>

lemma other_failure_effect:
  "subscribed c \<Longrightarrow> inflight c = Some i \<Longrightarrow> status err \<noteq> 404 \<Longrightarrow>
     step c (Response i (Failure err)) = c\<lparr> inflight := None, characters := None \<rparr>"
  by (simp add: step_def deliver_def fetchCharacters_def onNext_def)

subsection \<open>The debounce holds the last keystroke\<close>

lemma held_started: "held started []"
  by (simp add: held_def started_eq)

lemma debounce_step_cases:
  "debounce (step c e) = None
   \<or> (\<exists>v. e = SearchInput v \<and> subscribed c \<and> debounce (step c e) = Some (v, now c))
   \<or> ((\<forall>v. e \<noteq> SearchInput v \<or> \<not> subscribed c) \<and> debounce (step c e) = debounce c
        \<and> now (step c e) = now c + (case e of Elapse n \<Rightarrow> n | _ \<Rightarrow> 0)
        \<and> (subscribed c \<longrightarrow> subscribed (step c e)))"
  by (cases e)
     (auto simp: step_def pipeline_defs split: option.splits outcome.splits emitted.splits)

lemma held_step:
  assumes "held c es"
  shows "held (step c e) (es @ [e])"
  unfolding held_def
proof (intro allI impI)
  fix v t
  assume d: "debounce (step c e) = Some (v, t)"
  from debounce_step_cases [of c e] d
  consider (new) "e = SearchInput v" "subscribed c" "t = now c"
    | (old) "\<forall>w. e \<noteq> SearchInput w \<or> \<not> subscribed c" "debounce c = Some (v, t)"
        "now (step c e) = now c + (case e of Elapse n \<Rightarrow> n | _ \<Rightarrow> 0)"
        "subscribed c \<longrightarrow> subscribed (step c e)"
    by auto
  then show "subscribed (step c e) \<and>
      (\<exists>pre mid. es @ [e] = pre @ SearchInput v # mid \<and> quiet mid
         \<and> now (step c e) = t + elapsed mid)"
  proof cases
    case new
    have "es @ [e] = es @ SearchInput v # []" using new by simp
    moreover have "now (step c e) = now c" "subscribed (step c e)"
      using new by (simp_all add: step_def)
    ultimately show ?thesis
      using new by (intro conjI exI [of _ es] exI [of _ "[]"]) simp_all
  next
    case old
    from assms old(2) obtain pre mid where
      s: "subscribed c" and es: "es = pre @ SearchInput v # mid" and q: "quiet mid"
      and n: "now c = t + elapsed mid"
      unfolding held_def by blast
    from old(1) s have ne: "\<forall>w. e \<noteq> SearchInput w" by blast
    then have q': "quiet (mid @ [e])"
      using q by (cases e) (simp_all add: quiet_snoc)
    have "es @ [e] = pre @ SearchInput v # (mid @ [e])" using es by simp
    moreover have "now (step c e) = t + elapsed (mid @ [e])"
      using old(3) n by (simp add: elapsed_snoc)
    ultimately show ?thesis using q' s old(4) by blast
  qed
qed

lemma held_reachable: "held (run started es) es"
proof (induction es rule: rev_induct)
  case Nil
  show ?case by (simp add: held_started)
next
  case (snoc e es)
  then show ?case by (simp add: run_snoc held_step)
qed

subsection \<open>A closed subscription stays closed\<close>

lemma stopped_step:
  "stopped c \<Longrightarrow>
     stopped (step c e) \<and> state (step c e) = state c \<and> characters (step c e) = characters c
     \<and> totalItems (step c e) = totalItems c \<and> requests (step c e) = requests c"
  by (cases e) (auto simp: stopped_def step_def due_def teardown_def)

lemma stopped_run:
  "stopped c \<Longrightarrow>
     stopped (run c es) \<and> state (run c es) = state c \<and> characters (run c es) = characters c
     \<and> totalItems (run c es) = totalItems c \<and> requests (run c es) = requests c"
proof (induction es arbitrary: c)
  case Nil
  then show ?case by simp
next
  case (Cons e es)
  from stopped_step [OF Cons.prems, of e] Cons.IH [of "step c e"]
  show ?case by simp
qed

text \<open>
  A page change reads the search control as it is: the text of a keystroke made an
  instant before goes into the request, without waiting for the debounce.
\<close>

lemma page_change_reads_search_control:
  "requests (run started [SearchInput ''r'', PageInput 3]) =
     [[(''page'', ''1''), (''name'', [])], [(''page'', ''3''), (''name'', ''r'')]]"
  by (simp add: eval_defs)

section \<open>The resolution of a call\<close>

text \<open>
  Claim C7. When the call in flight resolves with a response body, the component becomes,
  in one step, the component it was with \<open>characters\<close> the records of the body,
  \<open>totalItems\<close> the count of the body and \<open>state\<close> LOADED; nothing else changes but the
  call no longer being in flight.
\<close>

theorem success_sets_LOADED_and_payload:
  "subscribed c \<Longrightarrow> inflight c = Some i \<Longrightarrow>
     step c (Response i (Success r)) =
       c\<lparr> characters := Some (results r), totalItems := count (info r), state := LOADED,
          inflight := None \<rparr>"
  by (simp add: step_def deliver_def fetchCharacters_def onNext_def)

theorem success_sets_LOADED_and_payload_witness:
  "subscribed started \<and> inflight started = Some 0
   \<and> state (step started (Response 0 (Success firstPage))) = LOADED
   \<and> characters (step started (Response 0 (Success firstPage))) = Some []
   \<and> totalItems (step started (Response 0 (Success firstPage))) = 826"
proof -
  have h1: "subscribed started" and h2: "inflight started = Some 0"
    by (simp_all add: started_eq)
  from success_sets_LOADED_and_payload [OF h1 h2, of firstPage] h1 h2
  show ?thesis by (simp add: firstPage_def)
qed

text \<open>
  Claim C6. When the call in flight fails with status 404, \<open>state\<close> becomes NO_DATA_FOUND,
  \<open>characters\<close> the empty list and \<open>totalItems\<close> 0.
\<close>

theorem not_found_sets_NO_DATA_FOUND:
  "subscribed c \<Longrightarrow> inflight c = Some i \<Longrightarrow> status err = 404 \<Longrightarrow>
     state (step c (Response i (Failure err))) = NO_DATA_FOUND
     \<and> characters (step c (Response i (Failure err))) = Some []
     \<and> totalItems (step c (Response i (Failure err))) = 0"
  by (simp add: step_def deliver_def fetchCharacters_def onError_def teardown_def)

theorem not_found_sets_NO_DATA_FOUND_witness:
  "subscribed started \<and> inflight started = Some 0 \<and> status (HttpErrorResponse 404) = 404
   \<and> state (step started (Response 0 (Failure (HttpErrorResponse 404)))) = NO_DATA_FOUND
   \<and> characters (step started (Response 0 (Failure (HttpErrorResponse 404)))) = Some []
   \<and> totalItems (step started (Response 0 (Failure (HttpErrorResponse 404)))) = 0"
proof -
  have h1: "subscribed started" and h2: "inflight started = Some 0"
    and h3: "status (HttpErrorResponse 404) = 404"
    by (simp_all add: started_eq)
  from not_found_sets_NO_DATA_FOUND [OF h1 h2 h3] h1 h2 h3 show ?thesis by simp
qed

text \<open>
  Claim C1. The claim wants the state ERROR and an empty result after a failure other
  than a 404. The code does not get there: when the first call fails with status 500,
  \<open>fetchCharacters\<close> hands the error object to the \<open>next\<close> callback, which leaves the
  state LOADING and \<open>characters\<close> undefined.
\<close>

theorem other_failure_leaves_LOADING:
  "state (step started (Response 0 (Failure (HttpErrorResponse 500)))) = LOADING
   \<and> characters (step started (Response 0 (Failure (HttpErrorResponse 500)))) = None
   \<and> subscribed (step started (Response 0 (Failure (HttpErrorResponse 500))))"
  by (simp add: started_eq step_def deliver_def fetchCharacters_def onNext_def)

text \<open>
  Claim C3. Once a resolution of the call in flight has gone to the \<open>error\<close> callback,
  whatever events follow, \<open>state\<close>, \<open>characters\<close> and \<open>totalItems\<close> stay as the callback
  left them, no further call is made, and the subscription stays closed.
\<close>

theorem pipeline_dead_after_error_callback:
  assumes "subscribed c" and "inflight c = Some i" and "fetchCharacters out = ErrorN err"
  shows "state (run (step c (Response i out)) es) = state (step c (Response i out))
    \<and> characters (run (step c (Response i out)) es) = characters (step c (Response i out))
    \<and> totalItems (run (step c (Response i out)) es) = totalItems (step c (Response i out))
    \<and> requests (run (step c (Response i out)) es) = requests (step c (Response i out))
    \<and> \<not> subscribed (run (step c (Response i out)) es)"
proof -
  have "stopped (step c (Response i out))"
    using assms by (simp add: stopped_def step_def deliver_def teardown_def onError_def)
  from stopped_run [OF this, of es] show ?thesis by (simp add: stopped_def)
qed

theorem pipeline_dead_after_error_callback_witness:
  "subscribed started \<and> inflight started = Some 0
   \<and> fetchCharacters (Failure (HttpErrorResponse 404)) = ErrorN (HttpErrorResponse 404)
   \<and> state (run (step started (Response 0 (Failure (HttpErrorResponse 404))))
        [SearchInput ''rick'', Elapse 200, PageInput 2]) = NO_DATA_FOUND
   \<and> requests (run (step started (Response 0 (Failure (HttpErrorResponse 404))))
        [SearchInput ''rick'', Elapse 200, PageInput 2]) = [[(''page'', ''1''), (''name'', [])]]"
proof -
  have h1: "subscribed started" and h2: "inflight started = Some 0"
    by (simp_all add: started_eq)
  have h3: "fetchCharacters (Failure (HttpErrorResponse 404)) = ErrorN (HttpErrorResponse 404)"
    by (simp add: fetchCharacters_def)
  from pipeline_dead_after_error_callback
         [OF h1 h2 h3, of "[SearchInput ''rick'', Elapse 200, PageInput 2]"] h1 h2 h3
  show ?thesis by (simp add: eval_defs)
qed

text \<open>
  Claim C4. In every component a run reaches, a call that is not the last one made has
  been superseded, and its resolution, success or failure, changes nothing at all.
\<close>

theorem superseded_resolution_discarded:
  "Suc i < length (requests (run started es)) \<Longrightarrow>
     step (run started es) (Response i out) = run started es"
  using consistent_reachable [of es] by (auto simp: consistent_def step_def)

theorem superseded_resolution_discarded_witness:
  "Suc 0 < length (requests (run started [PageInput 2]))
   \<and> step (run started [PageInput 2]) (Response 0 (Success firstPage)) =
       run started [PageInput 2]"
proof -
  have h: "Suc 0 < length (requests (run started [PageInput 2]))"
    by (simp add: eval_defs)
  from superseded_resolution_discarded [OF h] h show ?thesis by simp
qed

section \<open>The start of a call\<close>

text \<open>
  Claim C2, as amended. Whenever a call is made, by an event or by \<open>ngOnInit\<close>, \<open>state\<close> is
  LOADING and \<open>characters\<close> is the empty list afterwards, and \<open>totalItems\<close> is what it
  was before.
\<close>

theorem fetch_begin_LOADING_and_empty_list:
  "(requests (step c e) \<noteq> requests c \<longrightarrow>
      state (step c e) = LOADING \<and> characters (step c e) = Some []
      \<and> totalItems (step c e) = totalItems c)
   \<and> state (ngOnInit c) = LOADING \<and> characters (ngOnInit c) = Some []
   \<and> totalItems (ngOnInit c) = totalItems c"
  by (cases e)
     (auto simp: step_def ngOnInit_def pipeline_defs
        split: option.splits outcome.splits emitted.splits if_splits)

theorem fetch_begin_LOADING_and_empty_list_witness:
  "requests (step (run started [Response 0 (Success firstPage)]) (PageInput 2))
      \<noteq> requests (run started [Response 0 (Success firstPage)])
   \<and> state (step (run started [Response 0 (Success firstPage)]) (PageInput 2)) = LOADING
   \<and> characters (step (run started [Response 0 (Success firstPage)]) (PageInput 2)) = Some []
   \<and> totalItems (step (run started [Response 0 (Success firstPage)]) (PageInput 2)) =
       totalItems (run started [Response 0 (Success firstPage)])"
  using fetch_begin_LOADING_and_empty_list
          [of "run started [Response 0 (Success firstPage)]" "PageInput 2"]
  by (simp add: eval_defs firstPage_def)

text \<open>
  The claim C2 as it is written fails: after a first page with a count of 826 has loaded,
  a change to page 2 makes the second call and sets the state to LOADING, and the count
  is still 826, not 0.
\<close>

theorem totalItems_kept_at_fetch_begin:
  "requests (run started [Response 0 (Success firstPage), PageInput 2]) =
      requests (run started [Response 0 (Success firstPage)]) @
        [[(''page'', ''2''), (''name'', [])]]
   \<and> state (run started [Response 0 (Success firstPage), PageInput 2]) = LOADING
   \<and> totalItems (run started [Response 0 (Success firstPage), PageInput 2]) = 826"
  by (simp add: eval_defs firstPage_def)

text \<open>
  Claim C8. The first call, and every call an event makes in a component a run reaches,
  has exactly the two parameters \<open>page\<close> and \<open>name\<close>: \<open>page\<close> is the page control written
  in decimal and \<open>name\<close> is the search control, both as they are when the call is made;
  an empty search control is sent as the empty string.
\<close>

theorem request_params_page_and_name:
  "requests started =
     [[(''page'', toString (pageControl started)), (''name'', searchControl started)]]
   \<and> (requests (step (run started es) e) = requests (run started es)
      \<or> requests (step (run started es) e) = requests (run started es) @
           [[(''page'', toString (pageControl (step (run started es) e))),
             (''name'', searchControl (step (run started es) e))]])"
proof -
  have sp: "startPage (run started es) = 1"
    using consistent_reachable [of es] by (simp add: consistent_def)
  have "requests (step c e) = requests c
      \<or> requests (step c e) = requests c @
           [[(''page'', toString (pageControl (step c e))), (''name'', searchControl (step c e))]]"
    if "startPage c = 1" for c
    using that
    by (cases e)
       (auto simp: step_def pipeline_defs params_shape toString_Suc_0
          split: option.splits outcome.splits emitted.splits)
  with sp show ?thesis
    by (simp add: started_eq toString_Suc_0)
qed

theorem request_params_page_and_name_witness:
  "requests (step (run started [PageInput 3, SearchInput ''ri'']) (PageInput 12)) =
     requests (run started [PageInput 3, SearchInput ''ri'']) @
       [[(''page'', ''12''), (''name'', ''ri'')]]"
  using request_params_page_and_name [of "[PageInput 3, SearchInput ''ri'']" "PageInput 12"]
  by (simp add: eval_defs)

section \<open>The search text\<close>

text \<open>
  Claim C5. In every component a run reaches, when the debounce lets a value go that
  differs from the one let through before, the page control is 1 afterwards (written
  only if it was not 1), and exactly one call is made, with \<open>page\<close> 1 and the search
  control as \<open>name\<close>.
\<close>

theorem search_emission_page_1_one_fetch:
  assumes "due (run started es) n = Some v" and "distinctPrev (run started es) \<noteq> Some v"
  shows "pageControl (step (run started es) (Elapse n)) = 1
     \<and> (pageControl (run started es) = 1 \<longrightarrow> resetPage (run started es) = run started es)
     \<and> requests (step (run started es) (Elapse n)) =
         requests (run started es) @
           [[(''page'', ''1''), (''name'', searchControl (run started es))]]"
proof -
  have "startPage (run started es) = 1"
    using consistent_reachable [of es] by (simp add: consistent_def)
  with assms show ?thesis
    by (simp add: step_def searchEmit_def subscribePageChange_def resetPage_def loadPage_def
        params_shape toString_Suc_0)
qed

theorem search_emission_page_1_one_fetch_witness:
  "due (run started [PageInput 3, SearchInput ''rick'']) 200 = Some ''rick''
   \<and> distinctPrev (run started [PageInput 3, SearchInput ''rick'']) \<noteq> Some ''rick''
   \<and> pageControl (run started [PageInput 3, SearchInput ''rick'']) = 3
   \<and> pageControl (step (run started [PageInput 3, SearchInput ''rick'']) (Elapse 200)) = 1
   \<and> requests (step (run started [PageInput 3, SearchInput ''rick'']) (Elapse 200)) =
       [[(''page'', ''1''), (''name'', [])], [(''page'', ''3''), (''name'', [])],
        [(''page'', ''1''), (''name'', ''rick'')]]"
proof -
  have h1: "due (run started [PageInput 3, SearchInput ''rick'']) 200 = Some ''rick''"
    and h2: "distinctPrev (run started [PageInput 3, SearchInput ''rick'']) \<noteq> Some ''rick''"
    by (simp_all add: eval_defs)
  from search_emission_page_1_one_fetch [OF h1 h2] h1 h2
  show ?thesis by (simp add: eval_defs)
qed

text \<open>
  Claim C9. A keystroke by itself makes no call. After the events \<open>es\<close>, the debounce
  lets a value go within the next \<open>n\<close> milliseconds only if that value is the text of
  the last keystroke of \<open>es\<close> and at least 200 ms pass between that keystroke and the end
  of the \<open>n\<close> milliseconds; and the passing of time makes a call only when the debounce
  lets a value go. So the text of a keystroke that another one follows within 200 ms is
  never let go.
\<close>

theorem debounced_value_had_200ms_quiet:
  "requests (step (run started es) (SearchInput w)) = requests (run started es)
   \<and> (due (run started es) n = Some v \<longrightarrow>
        (\<exists>pre mid. es = pre @ SearchInput v # mid \<and> quiet mid \<and> 200 \<le> elapsed mid + n))
   \<and> (requests (step (run started es) (Elapse n)) \<noteq> requests (run started es) \<longrightarrow>
        (\<exists>u. due (run started es) n = Some u))"
proof (intro conjI impI)
  show "requests (step (run started es) (SearchInput w)) = requests (run started es)"
    by (simp add: step_def)
next
  assume a: "due (run started es) n = Some v"
  then obtain t where d: "debounce (run started es) = Some (v, t)"
    and le: "t + 200 \<le> now (run started es) + n"
    by (auto simp: due_def split: option.splits if_splits)
  from held_reachable [of es] d obtain pre mid where
    "es = pre @ SearchInput v # mid" "quiet mid" "now (run started es) = t + elapsed mid"
    unfolding held_def by blast
  with le show "\<exists>pre mid. es = pre @ SearchInput v # mid \<and> quiet mid \<and> 200 \<le> elapsed mid + n"
    by (intro exI [of _ pre] exI [of _ mid]) simp
next
  assume "requests (step (run started es) (Elapse n)) \<noteq> requests (run started es)"
  then show "\<exists>u. due (run started es) n = Some u"
    by (cases "due (run started es) n") (simp_all add: step_def)
qed

theorem debounced_value_had_200ms_quiet_witness:
  "due (run started [SearchInput ''r'', Elapse 100, SearchInput ''ri'', Elapse 150]) 50
      = Some ''ri''
   \<and> requests (step (run started [SearchInput ''r'', Elapse 100, SearchInput ''ri'', Elapse 150])
        (Elapse 50))
       \<noteq> requests (run started [SearchInput ''r'', Elapse 100, SearchInput ''ri'', Elapse 150])
   \<and> (\<exists>pre mid.
         [SearchInput ''r'', Elapse 100, SearchInput ''ri'', Elapse 150] =
           pre @ SearchInput ''ri'' # mid
         \<and> quiet mid \<and> 200 \<le> elapsed mid + 50)"
proof -
  have h: "due (run started [SearchInput ''r'', Elapse 100, SearchInput ''ri'', Elapse 150]) 50
      = Some ''ri''"
    and g: "requests (step (run started [SearchInput ''r'', Elapse 100, SearchInput ''ri'', Elapse 150])
        (Elapse 50))
       \<noteq> requests (run started [SearchInput ''r'', Elapse 100, SearchInput ''ri'', Elapse 150])"
    by (simp_all add: eval_defs)
  from debounced_value_had_200ms_quiet
         [of "[SearchInput ''r'', Elapse 100, SearchInput ''ri'', Elapse 150]" "[]" 50 "''ri''"]
       h g
  show ?thesis by simp
qed

text \<open>
  Claim C10. When the debounce lets go a value equal to the one let through before, the
  value is dropped: the timer is cleared and the clock moves, and nothing else changes,
  so no call is made for the repeated value.
\<close>

theorem repeated_search_term_suppressed:
  "due c n = Some v \<Longrightarrow> distinctPrev c = Some v \<Longrightarrow>
     step c (Elapse n) = c\<lparr> debounce := None, now := now c + n \<rparr>"
  by (simp add: step_def searchEmit_def)

theorem repeated_search_term_suppressed_witness:
  "due (run started [SearchInput ''a'', Elapse 200, SearchInput ''ab'', SearchInput ''a'']) 200
      = Some ''a''
   \<and> distinctPrev (run started [SearchInput ''a'', Elapse 200, SearchInput ''ab'', SearchInput ''a''])
      = Some ''a''
   \<and> requests (step (run started [SearchInput ''a'', Elapse 200, SearchInput ''ab'', SearchInput ''a''])
        (Elapse 200))
      = requests (run started [SearchInput ''a'', Elapse 200, SearchInput ''ab'', SearchInput ''a''])"
proof -
  have h1: "due (run started [SearchInput ''a'', Elapse 200, SearchInput ''ab'', SearchInput ''a'']) 200
      = Some ''a''"
    and h2: "distinctPrev (run started [SearchInput ''a'', Elapse 200, SearchInput ''ab'', SearchInput ''a''])
      = Some ''a''"
    by (simp_all add: eval_defs)
  from repeated_search_term_suppressed [OF h1 h2] h1 h2 show ?thesis by simp
qed

end
